theory Spec2Isabelle
  imports Main "HOL-Library.Word"
begin

unbundle bit_operations_syntax

section \<open>The bootstrap downloader (boot/bootstrap.js)\<close>

text \<open>
  The script runs under QuickJS (\<^verbatim>\<open>qjs --std\<close>) and talks to the outside world only
  through the modules \<^verbatim>\<open>std\<close> and \<^verbatim>\<open>os\<close> and through \<^verbatim>\<open>./sha256.js\<close>. The two
  functions verified here are \<^verbatim>\<open>mkpath\<close> and \<^verbatim>\<open>download\<close>. They are embedded as
  state-passing functions over a world \<open>'w\<close>; the calls into \<^verbatim>\<open>std\<close>, \<^verbatim>\<open>os\<close> and
  \<^verbatim>\<open>sha256\<close> are the fields of a record that the functions take as a parameter.
\<close>

subsection \<open>Data\<close>

type_synonym byte = "8 word"

text \<open>An \<^verbatim>\<open>ArrayBuffer\<close>; \<^verbatim>\<open>byteLength\<close> is \<^const>\<open>length\<close>.\<close>
type_synonym array_buffer = "byte list"

text \<open>
  What a call of \<^verbatim>\<open>os.mkdir\<close> can do to its caller: hand back a number, or throw an
  exception \<^verbatim>\<open>e\<close> of which the script reads \<^verbatim>\<open>e.message\<close>. QuickJS documents
  \<^verbatim>\<open>os.mkdir\<close> as returning \<open>0\<close> or \<open>-errno\<close>; the script is written as if it threw.
  Both are kept.
\<close>
datatype js_outcome = Returned int | Threw string

text \<open>
  The calls the script makes. \<^verbatim>\<open>std.urlGet(url, {binary: true})\<close> yields \<open>Some buf\<close>
  when the value is an \<^verbatim>\<open>ArrayBuffer\<close> and \<open>None\<close> when it is anything else.
  \<^verbatim>\<open>os.open\<close> yields a handle or a negative number, \<^verbatim>\<open>os.write\<close> the number of bytes
  written or a negative number. \<open>sha256_hex\<close> stands for
  \<^verbatim>\<open>sha256.arrayBufferToHex(sha256.sha256(buf))\<close> of the module \<^verbatim>\<open>./sha256.js\<close>.
  \<open>O_CREAT\<close>, \<open>O_RDWR\<close> and \<open>O_TRUNC\<close> are the constants of the \<^verbatim>\<open>os\<close> module.
\<close>
record 'w os_env =
  std_urlGet :: "string \<Rightarrow> 'w \<Rightarrow> array_buffer option \<times> 'w"
  sha256_hex :: "array_buffer \<Rightarrow> string"
  os_mkdir :: "string \<Rightarrow> nat \<Rightarrow> 'w \<Rightarrow> js_outcome \<times> 'w"
  os_open :: "string \<Rightarrow> nat \<Rightarrow> nat \<Rightarrow> 'w \<Rightarrow> int \<times> 'w"
  os_write :: "int \<Rightarrow> array_buffer \<Rightarrow> nat \<Rightarrow> nat \<Rightarrow> 'w \<Rightarrow> int \<times> 'w"
  os_close :: "int \<Rightarrow> 'w \<Rightarrow> int \<times> 'w"
  O_CREAT :: nat
  O_RDWR :: nat
  O_TRUNC :: nat

text \<open>
  Every way \<^verbatim>\<open>download\<close> ends other than by returning. The first, second, fourth and
  fifth are a message on \<^verbatim>\<open>std.err\<close> followed by \<^verbatim>\<open>os.exit(1)\<close>, and carry the
  arguments of that message; the third is the exception that \<^verbatim>\<open>mkpath\<close> rethrows, which
  \<^verbatim>\<open>download\<close> does not catch.
\<close>
datatype failure =
    FetchFailed string
  | ChecksumMismatch string "string list" string
  | Uncaught string
  | CannotOpen string
  | IncompleteWrite string int nat

subsection \<open>String primitives of JavaScript\<close>

text \<open>\<^verbatim>\<open>s.lastIndexOf(c)\<close>: the index of the last \<open>c\<close> in \<open>s\<close>, or \<open>-1\<close>.\<close>
primrec last_index_from :: "char \<Rightarrow> string \<Rightarrow> nat \<Rightarrow> int \<Rightarrow> int" where
  "last_index_from c [] i found = found"
| "last_index_from c (x # xs) i found =
     last_index_from c xs (Suc i) (if x = c then int i else found)"

definition lastIndexOf :: "string \<Rightarrow> char \<Rightarrow> int" where
  "lastIndexOf s c = last_index_from c s 0 (- 1)"

text \<open>\<^verbatim>\<open>s.slice(0, idx)\<close> for \<open>0 \<le> idx\<close>.\<close>
definition slice0 :: "string \<Rightarrow> int \<Rightarrow> string" where
  "slice0 s idx = take (nat idx) s"

text \<open>\<^verbatim>\<open>s.split(c)\<close>: the pieces between the separators; empty pieces are kept.\<close>
primrec split_from :: "char \<Rightarrow> string \<Rightarrow> string \<Rightarrow> string list" where
  "split_from c [] cur = [cur]"
| "split_from c (x # xs) cur =
     (if x = c then cur # split_from c xs [] else split_from c xs (cur @ [x]))"

definition str_split :: "string \<Rightarrow> char \<Rightarrow> string list" where
  "str_split s c = split_from c s []"

text \<open>\<^verbatim>\<open>/EEXIST/.test(msg)\<close>: the text \<^verbatim>\<open>EEXIST\<close> occurs somewhere in \<open>msg\<close>.\<close>
primrec starts_with :: "string \<Rightarrow> string \<Rightarrow> bool" where
  "starts_with [] s = True"
| "starts_with (p # ps) s = (case s of [] \<Rightarrow> False | x # xs \<Rightarrow> x = p \<and> starts_with ps xs)"

primrec regex_test :: "string \<Rightarrow> string \<Rightarrow> bool" where
  "regex_test pat [] = (pat = [])"
| "regex_test pat (x # xs) = (starts_with pat (x # xs) \<or> regex_test pat xs)"

definition EEXIST_test :: "string \<Rightarrow> bool" where
  "EEXIST_test msg = regex_test ''EEXIST'' msg"

subsection \<open>mkpath\<close>

text \<open>
  The \<^verbatim>\<open>for (const part of parts)\<close> loop. The result is \<open>Some msg\<close> when the loop is
  left by \<^verbatim>\<open>throw e\<close>, and \<open>None\<close> when it runs to its end.
\<close>
fun mkpath_loop ::
  "'w os_env \<Rightarrow> nat \<Rightarrow> string \<Rightarrow> string list \<Rightarrow> 'w \<Rightarrow> string option \<times> 'w" where
  "mkpath_loop env mode subpath [] w = (None, w)"
| "mkpath_loop env mode subpath (part # parts) w =
     (let subpath' = subpath @ (if subpath \<noteq> [] then ''/'' else []) @ part in
      (case os_mkdir env subpath' mode w of
         (Returned r, w') \<Rightarrow> mkpath_loop env mode subpath' parts w'
       | (Threw msg, w') \<Rightarrow>
           if \<not> EEXIST_test msg then (Some msg, w')
           else mkpath_loop env mode subpath' parts w'))"

definition mkpath :: "'w os_env \<Rightarrow> string \<Rightarrow> nat \<Rightarrow> 'w \<Rightarrow> string option \<times> 'w" where
  "mkpath env filePath mode w =
     (let idx = lastIndexOf filePath CHR ''/'' in
      if idx \<le> 0 then (None, w)
      else
        let dirPath = slice0 filePath idx;
            parts = str_split dirPath CHR ''/''
        in mkpath_loop env mode [] parts w)"

text \<open>The default \<^verbatim>\<open>mode = 0o755\<close> of \<^verbatim>\<open>mkpath\<close>.\<close>
definition mkpath_default_mode :: nat where
  "mkpath_default_mode = 7 * 64 + 5 * 8 + 5"

subsection \<open>download\<close>

text \<open>The literal \<^verbatim>\<open>0x755\<close> passed to \<^verbatim>\<open>os.open\<close>.\<close>
definition open_mode :: nat where
  "open_mode = 7 * 256 + 5 * 16 + 5"

definition open_flags :: "'w os_env \<Rightarrow> nat" where
  "open_flags env = O_CREAT env OR O_RDWR env OR O_TRUNC env"

text \<open>
  \<^verbatim>\<open>checksums && !checksums.includes(digest)\<close>. The parameter is \<open>None\<close> for
  \<^verbatim>\<open>null\<close> (also the default taken for \<^verbatim>\<open>undefined\<close>) and \<open>Some cs\<close> for an array
  of strings; an array is truthy also when it is empty.
\<close>
definition checksum_rejects :: "string list option \<Rightarrow> string \<Rightarrow> bool" where
  "checksum_rejects checksums digest =
     (case checksums of None \<Rightarrow> False | Some cs \<Rightarrow> digest \<notin> set cs)"

text \<open>
  The result is \<open>Inl f\<close> when the function ends by \<^verbatim>\<open>os.exit(1)\<close> or by an uncaught
  exception, and \<open>Inr (filename, written)\<close>, the arguments of the final message on
  \<^verbatim>\<open>std.out\<close>, when it returns.
\<close>
definition download ::
  "'w os_env \<Rightarrow> string \<Rightarrow> string \<Rightarrow> string list option \<Rightarrow> 'w \<Rightarrow>
     (failure + string \<times> int) \<times> 'w" where
  "download env url filename checksums w =
     (case std_urlGet env url w of
        (None, w1) \<Rightarrow> (Inl (FetchFailed url), w1)
      | (Some dataBuf, w1) \<Rightarrow>
          (let digest = sha256_hex env dataBuf in
           if checksum_rejects checksums digest
           then (Inl (ChecksumMismatch filename (the checksums) digest), w1)
           else
             (case mkpath env filename mkpath_default_mode w1 of
                (Some msg, w2) \<Rightarrow> (Inl (Uncaught msg), w2)
              | (None, w2) \<Rightarrow>
                  (case os_open env filename (open_flags env) open_mode w2 of
                     (fd, w3) \<Rightarrow>
                       if fd < 0 then (Inl (CannotOpen filename), w3)
                       else
                         (case os_write env fd dataBuf 0 (length dataBuf) w3 of
                            (written, w4) \<Rightarrow>
                              (let w5 = snd (os_close env fd w4) in
                               if written \<noteq> int (length dataBuf)
                               then (Inl (IncompleteWrite filename written (length dataBuf)), w5)
                               else (Inr (filename, written), w5)))))))"

subsection \<open>The paths handed to \<^verbatim>\<open>os.mkdir\<close>\<close>

text \<open>
  The successive values of the variable \<^verbatim>\<open>subpath\<close> in the loop of \<^verbatim>\<open>mkpath\<close>, when
  no iteration throws.
\<close>
fun subpaths :: "string \<Rightarrow> string list \<Rightarrow> string list" where
  "subpaths subpath [] = []"
| "subpaths subpath (part # parts) =
     (let subpath' = subpath @ (if subpath \<noteq> [] then ''/'' else []) @ part in
      subpath' # subpaths subpath' parts)"

text \<open>
  The prefixes of a path that end just before a separator, in increasing order,
  followed by the path itself: for \<^verbatim>\<open>out/dir\<close> these are \<^verbatim>\<open>out\<close> and \<^verbatim>\<open>out/dir\<close>.
\<close>
definition slash_prefixes :: "string \<Rightarrow> string list" where
  "slash_prefixes s =
     map (\<lambda>k. take k s) (filter (\<lambda>k. s ! k = CHR ''/'') [0..<length s]) @ [s]"

text \<open>An outcome of \<^verbatim>\<open>os.mkdir\<close> that makes \<^verbatim>\<open>mkpath\<close> rethrow.\<close>
definition rethrown :: "js_outcome \<Rightarrow> bool" where
  "rethrown out = (case out of Returned r \<Rightarrow> False | Threw msg \<Rightarrow> \<not> EEXIST_test msg)"

subsection \<open>Recording the calls\<close>

text \<open>
  To speak about which calls a run makes, an environment is wrapped so that every
  call is appended to a log kept beside the world. The wrapped calls do what the
  original ones do.
\<close>
datatype event =
    UrlGet string
  | Mkdir string nat
  | Open string nat nat
  | Write int array_buffer nat nat
  | Close int

definition logged :: "'w os_env \<Rightarrow> ('w \<times> event list) os_env" where
  "logged env =
     \<lparr> std_urlGet = (\<lambda>url (w, l).
         (fst (std_urlGet env url w), (snd (std_urlGet env url w), l @ [UrlGet url]))),
       sha256_hex = sha256_hex env,
       os_mkdir = (\<lambda>p mode (w, l).
         (fst (os_mkdir env p mode w), (snd (os_mkdir env p mode w), l @ [Mkdir p mode]))),
       os_open = (\<lambda>p flags mode (w, l).
         (fst (os_open env p flags mode w),
          (snd (os_open env p flags mode w), l @ [Open p flags mode]))),
       os_write = (\<lambda>fd buf off len (w, l).
         (fst (os_write env fd buf off len w),
          (snd (os_write env fd buf off len w), l @ [Write fd buf off len]))),
       os_close = (\<lambda>fd (w, l).
         (fst (os_close env fd w), (snd (os_close env fd w), l @ [Close fd]))),
       O_CREAT = O_CREAT env,
       O_RDWR = O_RDWR env,
       O_TRUNC = O_TRUNC env \<rparr>"

definition is_Open :: "event \<Rightarrow> bool" where
  "is_Open e = (case e of Open p flags mode \<Rightarrow> True | _ \<Rightarrow> False)"

subsection \<open>What is assumed of the operating system\<close>

text \<open>
  Opening a file with the flags of \<^verbatim>\<open>download\<close>, writing a whole buffer to the handle
  from offset 0 and closing it leaves the file holding the buffer, whenever the open
  succeeded and the write reported the whole length. \<open>content w p\<close> is what the file
  \<open>p\<close> holds in the world \<open>w\<close>, \<open>None\<close> when there is no such file.
\<close>
definition file_contract ::
  "'w os_env \<Rightarrow> ('w \<Rightarrow> string \<Rightarrow> array_buffer option) \<Rightarrow> bool" where
  "file_contract env content =
     (\<forall>p mode buf w.
        0 \<le> fst (os_open env p (open_flags env) mode w) \<longrightarrow>
        fst (os_write env (fst (os_open env p (open_flags env) mode w)) buf 0 (length buf)
               (snd (os_open env p (open_flags env) mode w))) = int (length buf) \<longrightarrow>
        content
          (snd (os_close env (fst (os_open env p (open_flags env) mode w))
             (snd (os_write env (fst (os_open env p (open_flags env) mode w)) buf 0 (length buf)
                (snd (os_open env p (open_flags env) mode w)))))) p = Some buf)"

text \<open>
  \<open>settled env p mode w\<close>: in the world \<open>w\<close>, \<^verbatim>\<open>os.mkdir(p, mode)\<close> changes nothing
  and does not make \<^verbatim>\<open>mkpath\<close> rethrow.
\<close>
definition settled :: "'w os_env \<Rightarrow> string \<Rightarrow> nat \<Rightarrow> 'w \<Rightarrow> bool" where
  "settled env p mode w =
     (snd (os_mkdir env p mode w) = w \<and> \<not> rethrown (fst (os_mkdir env p mode w)))"

text \<open>
  Two properties of directory creation: after a call that \<^verbatim>\<open>mkpath\<close> does not rethrow,
  the same call is settled; and a call that is settled stays so when a directory is
  created at a path that extends it.
\<close>
definition mkdir_contract :: "'w os_env \<Rightarrow> bool" where
  "mkdir_contract env =
     ((\<forall>p mode w. \<not> rethrown (fst (os_mkdir env p mode w)) \<longrightarrow>
          settled env p mode (snd (os_mkdir env p mode w))) \<and>
      (\<forall>p q mode w. starts_with p q \<longrightarrow> settled env p mode w \<longrightarrow>
          settled env p mode (snd (os_mkdir env q mode w))))"

text \<open>
  \<open>write_step_succeeds env filename buf w\<close>: started in \<open>w\<close>, step 4 of \<^verbatim>\<open>download\<close>
  meets no failure of the operating system: \<^verbatim>\<open>mkpath\<close> does not throw, \<^verbatim>\<open>os.open\<close>
  yields a handle and \<^verbatim>\<open>os.write\<close> reports the whole length.
\<close>
definition write_step_succeeds ::
  "'w os_env \<Rightarrow> string \<Rightarrow> array_buffer \<Rightarrow> 'w \<Rightarrow> bool" where
  "write_step_succeeds env filename buf w =
     (let made = mkpath env filename mkpath_default_mode w;
          opened = os_open env filename (open_flags env) open_mode (snd made)
      in fst made = None \<and> 0 \<le> fst opened \<and>
         fst (os_write env (fst opened) buf 0 (length buf) (snd opened)) = int (length buf))"

text \<open>The results of \<^verbatim>\<open>download\<close> that come after the call of \<^verbatim>\<open>os.open\<close>.\<close>
fun reached_open :: "failure + string \<times> int \<Rightarrow> bool" where
  "reached_open (Inl (FetchFailed u)) = False"
| "reached_open (Inl (ChecksumMismatch f cs d)) = False"
| "reached_open (Inl (Uncaught msg)) = False"
| "reached_open (Inl (CannotOpen f)) = True"
| "reached_open (Inl (IncompleteWrite f n k)) = True"
| "reached_open (Inr r) = True"

subsection \<open>A simulated operating system\<close>

text \<open>
  A small file system on which the functions can be run: directories and files
  under the names they were created with, open handles with their positions, a table
  of what each URL serves. Failures of \<open>sim_mkdir\<close> are reported as QuickJS does, by
  the number \<open>-errno\<close>, or, when \<open>throwing\<close> is set, by an exception whose message
  starts with the name of the error, which is what \<^verbatim>\<open>mkpath\<close> is written for. One
  call of \<open>sim_write\<close> transfers at most \<open>write_cap\<close> bytes.
\<close>
datatype errno = ENOENT | EBADF | EEXIST | ENOTDIR | EISDIR

primrec errno_code :: "errno \<Rightarrow> int" where
  "errno_code ENOENT = 2"
| "errno_code EBADF = 9"
| "errno_code EEXIST = 17"
| "errno_code ENOTDIR = 20"
| "errno_code EISDIR = 21"

primrec errno_message :: "errno \<Rightarrow> string" where
  "errno_message ENOENT = ''ENOENT: no such file or directory''"
| "errno_message EBADF = ''EBADF: bad file descriptor''"
| "errno_message EEXIST = ''EEXIST: file exists''"
| "errno_message ENOTDIR = ''ENOTDIR: not a directory''"
| "errno_message EISDIR = ''EISDIR: is a directory''"

record sim_world =
  sim_dirs :: "string list"
  sim_files :: "(string \<times> array_buffer) list"
  sim_handles :: "(int \<times> string \<times> nat) list"

record sim_config =
  remote :: "(string \<times> array_buffer) list"
  hash :: "array_buffer \<Rightarrow> string"
  throwing :: bool
  write_cap :: nat

definition sim_content :: "sim_world \<Rightarrow> string \<Rightarrow> array_buffer option" where
  "sim_content w p = map_of (sim_files w) p"

definition report :: "sim_config \<Rightarrow> errno \<Rightarrow> js_outcome" where
  "report cfg e =
     (if throwing cfg then Threw (errno_message e) else Returned (- errno_code e))"

definition parent_error :: "sim_world \<Rightarrow> string \<Rightarrow> errno option" where
  "parent_error w p =
     (let idx = lastIndexOf p CHR ''/'' in
      if idx \<le> 0 then None
      else if slice0 p idx \<in> set (sim_dirs w) then None
      else if sim_content w (slice0 p idx) \<noteq> None then Some ENOTDIR
      else Some ENOENT)"

definition sim_mkdir ::
  "sim_config \<Rightarrow> string \<Rightarrow> nat \<Rightarrow> sim_world \<Rightarrow> js_outcome \<times> sim_world" where
  "sim_mkdir cfg p mode w =
     (if p = [] then (report cfg ENOENT, w)
      else if p \<in> set (sim_dirs w) \<or> sim_content w p \<noteq> None then (report cfg EEXIST, w)
      else
        (case parent_error w p of
           Some e \<Rightarrow> (report cfg e, w)
         | None \<Rightarrow> (Returned 0, w\<lparr>sim_dirs := sim_dirs w @ [p]\<rparr>)))"

definition fresh_handle :: "sim_world \<Rightarrow> int" where
  "fresh_handle w = fold max (map fst (sim_handles w)) 2 + 1"

definition sim_open ::
  "sim_config \<Rightarrow> string \<Rightarrow> nat \<Rightarrow> nat \<Rightarrow> sim_world \<Rightarrow> int \<times> sim_world" where
  "sim_open cfg p flags mode w =
     (if p = [] then (- errno_code ENOENT, w)
      else if p \<in> set (sim_dirs w) then (- errno_code EISDIR, w)
      else
        (case parent_error w p of
           Some e \<Rightarrow> (- errno_code e, w)
         | None \<Rightarrow>
             (case sim_content w p of
                None \<Rightarrow>
                  if flags AND 64 = 0 then (- errno_code ENOENT, w)
                  else (fresh_handle w,
                        w\<lparr>sim_files := (p, []) # sim_files w,
                          sim_handles := (fresh_handle w, p, 0) # sim_handles w\<rparr>)
              | Some old \<Rightarrow>
                  (fresh_handle w,
                   w\<lparr>sim_files := (p, if flags AND 512 = 0 then old else []) #
                                    filter (\<lambda>(q, c). q \<noteq> p) (sim_files w),
                     sim_handles := (fresh_handle w, p, 0) # sim_handles w\<rparr>))))"

definition sim_write ::
  "sim_config \<Rightarrow> int \<Rightarrow> array_buffer \<Rightarrow> nat \<Rightarrow> nat \<Rightarrow> sim_world \<Rightarrow> int \<times> sim_world" where
  "sim_write cfg fd buf off len w =
     (case map_of (sim_handles w) fd of
        None \<Rightarrow> (- errno_code EBADF, w)
      | Some (p, pos) \<Rightarrow>
          (let chunk = take (min len (write_cap cfg)) (drop off buf);
               old = (case sim_content w p of None \<Rightarrow> [] | Some c \<Rightarrow> c)
           in (int (length chunk),
               w\<lparr>sim_files := (p, take pos old @ chunk @ drop (pos + length chunk) old) #
                                filter (\<lambda>(q, c). q \<noteq> p) (sim_files w),
                 sim_handles := (fd, p, pos + length chunk) #
                                filter (\<lambda>(h, x). h \<noteq> fd) (sim_handles w)\<rparr>)))"

definition sim_close :: "sim_config \<Rightarrow> int \<Rightarrow> sim_world \<Rightarrow> int \<times> sim_world" where
  "sim_close cfg fd w =
     (case map_of (sim_handles w) fd of
        None \<Rightarrow> (- errno_code EBADF, w)
      | Some x \<Rightarrow> (0, w\<lparr>sim_handles := filter (\<lambda>(h, x). h \<noteq> fd) (sim_handles w)\<rparr>))"

definition sim_os :: "sim_config \<Rightarrow> sim_world os_env" where
  "sim_os cfg =
     \<lparr> std_urlGet = (\<lambda>url w. (map_of (remote cfg) url, w)),
       sha256_hex = hash cfg,
       os_mkdir = sim_mkdir cfg,
       os_open = sim_open cfg,
       os_write = sim_write cfg,
       os_close = sim_close cfg,
       O_CREAT = 64,
       O_RDWR = 2,
       O_TRUNC = 512 \<rparr>"

text \<open>
  The scenario of the design document: the URL \<^verbatim>\<open>https://example/a.bin\<close> serves the
  four bytes \<^verbatim>\<open>01 02 03 04\<close>. \<open>demo_hash\<close> stands in for SHA-256: it gives these four
  bytes their SHA-256 digest and every other buffer a string of zeros.
\<close>
definition demo_payload :: array_buffer where
  "demo_payload = [1, 2, 3, 4]"

definition demo_digest :: string where
  "demo_digest = ''9f64a747e1b97f131fabb6b447296c9b6f0201e79fb3c5356e6c77e89b6a806a''"

definition demo_hash :: "array_buffer \<Rightarrow> string" where
  "demo_hash buf = (if buf = demo_payload then demo_digest else replicate 64 CHR ''0'')"

definition demo_config :: sim_config where
  "demo_config =
     \<lparr> remote = [(''https://example/a.bin'', demo_payload)],
       hash = demo_hash,
       throwing = False,
       write_cap = 65536 \<rparr>"

definition empty_world :: sim_world where
  "empty_world = \<lparr> sim_dirs = [], sim_files = [], sim_handles = [] \<rparr>"

text \<open>A world in which \<^verbatim>\<open>a\<close> is a regular file.\<close>
definition file_a_world :: sim_world where
  "file_a_world = \<lparr> sim_dirs = [], sim_files = [(''a'', [])], sim_handles = [] \<rparr>"

section \<open>Auxiliary facts\<close>

lemmas sim_defs = sim_os_def sim_mkdir_def sim_open_def sim_write_def sim_close_def
  report_def parent_error_def sim_content_def fresh_handle_def
  lastIndexOf_def slice0_def str_split_def EEXIST_test_def
  demo_config_def demo_payload_def demo_digest_def demo_hash_def empty_world_def
  mkpath_def mkpath_default_mode_def open_mode_def open_flags_def checksum_rejects_def

subsection \<open>Strings\<close>

lemma starts_with_iff: "starts_with p s = (\<exists>r. s = p @ r)"
proof (induction p arbitrary: s)
  case Nil
  then show ?case by simp
next
  case (Cons a p)
  then show ?case by (cases s) auto
qed

lemma last_index_from_bound:
  "found < int i \<Longrightarrow> last_index_from c s i found < int (i + length s)"
proof (induction s arbitrary: i found)
  case Nil
  then show ?case by simp
next
  case (Cons x s)
  have "(if x = c then int i else found) < int (Suc i)" using Cons.prems by simp
  from Cons.IH [OF this] show ?case by simp
qed

lemma lastIndexOf_bound: "lastIndexOf s c < int (length s)"
  using last_index_from_bound [of "- 1" 0 c s] by (simp add: lastIndexOf_def)

lemma length_parent: "0 < lastIndexOf p c \<Longrightarrow> length (slice0 p (lastIndexOf p c)) < length p"
  using lastIndexOf_bound [of p c] by (simp add: slice0_def)

lemma filter_upt_Suc:
  "filter P [0..<Suc n] = (if P 0 then [0] else []) @ map Suc (filter (\<lambda>k. P (Suc k)) [0..<n])"
proof -
  have "[0..<Suc n] = 0 # map Suc [0..<n]"
    by (simp add: upt_conv_Cons map_Suc_upt del: upt_Suc)
  then show ?thesis by (simp add: filter_map comp_def del: upt_Suc)
qed

subsection \<open>The loop of \<^verbatim>\<open>mkpath\<close>\<close>

text \<open>
  One iteration of the loop: a number handed back by \<^verbatim>\<open>os.mkdir\<close> is dropped, whatever
  it is; an exception is swallowed when its message contains \<^verbatim>\<open>EEXIST\<close> and rethrown
  otherwise.
\<close>
lemma mkpath_loop_Returned:
  "os_mkdir env (sp @ (if sp \<noteq> [] then ''/'' else []) @ part) mode w = (Returned r, w') \<Longrightarrow>
   mkpath_loop env mode sp (part # parts) w =
     mkpath_loop env mode (sp @ (if sp \<noteq> [] then ''/'' else []) @ part) parts w'"
  by (simp add: Let_def)

lemma mkpath_loop_Threw:
  "os_mkdir env (sp @ (if sp \<noteq> [] then ''/'' else []) @ part) mode w = (Threw msg, w') \<Longrightarrow>
   mkpath_loop env mode sp (part # parts) w =
     (if EEXIST_test msg
      then mkpath_loop env mode (sp @ (if sp \<noteq> [] then ''/'' else []) @ part) parts w'
      else (Some msg, w'))"
  by (simp add: Let_def)

lemma mkpath_loop_return_codes_ignored:
  assumes "\<And>p w. \<exists>r. fst (os_mkdir env p mode w) = Returned r"
  shows "fst (mkpath_loop env mode sp parts w) = None"
proof (induction parts arbitrary: sp w)
  case Nil
  then show ?case by simp
next
  case (Cons part parts)
  define sp' where "sp' = sp @ (if sp \<noteq> [] then ''/'' else []) @ part"
  from assms [of sp' w] obtain r w' where "os_mkdir env sp' mode w = (Returned r, w')"
    by (cases "os_mkdir env sp' mode w") auto
  then have "mkpath_loop env mode sp (part # parts) w = mkpath_loop env mode sp' parts w'"
    unfolding sp'_def by (rule mkpath_loop_Returned)
  with Cons.IH show ?case by simp
qed

lemma mkpath_return_codes_ignored:
  assumes "\<And>p w. \<exists>r. fst (os_mkdir env p mode w) = Returned r"
  shows "fst (mkpath env filePath mode w) = None"
  using mkpath_loop_return_codes_ignored [OF assms] by (simp add: mkpath_def Let_def)

lemma subpaths_extend: "t \<in> set (subpaths sp parts) \<Longrightarrow> starts_with sp t"
proof (induction parts arbitrary: sp)
  case Nil
  then show ?case by simp
next
  case (Cons part parts)
  define sp' where "sp' = sp @ (if sp \<noteq> [] then ''/'' else []) @ part"
  from Cons.prems have "t = sp' \<or> t \<in> set (subpaths sp' parts)"
    by (simp add: sp'_def Let_def)
  then show ?case
  proof
    assume "t = sp'"
    then show ?thesis by (simp add: starts_with_iff sp'_def)
  next
    assume "t \<in> set (subpaths sp' parts)"
    from Cons.IH [OF this] show ?thesis by (auto simp: starts_with_iff sp'_def)
  qed
qed

lemma subpaths_split_from:
  assumes "sp = [] \<longrightarrow> cur \<noteq> []"
  shows "subpaths sp (split_from CHR ''/'' rest cur) =
     map (\<lambda>k. sp @ (if sp \<noteq> [] then ''/'' else []) @ cur @ take k rest)
       (filter (\<lambda>k. rest ! k = CHR ''/'') [0..<length rest]) @
     [sp @ (if sp \<noteq> [] then ''/'' else []) @ cur @ rest]"
  using assms
proof (induction rest arbitrary: sp cur)
  case Nil
  then show ?case by (simp add: Let_def)
next
  case (Cons x xs)
  define J where "J = sp @ (if sp \<noteq> [] then ''/'' else []) @ cur"
  from Cons.prems have J: "J \<noteq> []" by (auto simp: J_def)
  show ?case
  proof (cases "x = CHR ''/''")
    case True
    have "subpaths sp (split_from CHR ''/'' (x # xs) cur) =
        J # subpaths J (split_from CHR ''/'' xs [])"
      using True by (simp add: J_def Let_def)
    also have "subpaths J (split_from CHR ''/'' xs []) =
        map (\<lambda>k. J @ ''/'' @ take k xs) (filter (\<lambda>k. xs ! k = CHR ''/'') [0..<length xs]) @
        [J @ ''/'' @ xs]"
      using Cons.IH [of J "[]"] J by simp
    finally show ?thesis
      using True unfolding length_Cons filter_upt_Suc
      by (simp add: J_def comp_def del: upt_Suc)
  next
    case False
    have "subpaths sp (split_from CHR ''/'' (x # xs) cur) =
        subpaths sp (split_from CHR ''/'' xs (cur @ [x]))"
      using False by simp
    also have "\<dots> =
        map (\<lambda>k. sp @ (if sp \<noteq> [] then ''/'' else []) @ (cur @ [x]) @ take k xs)
          (filter (\<lambda>k. xs ! k = CHR ''/'') [0..<length xs]) @
        [sp @ (if sp \<noteq> [] then ''/'' else []) @ (cur @ [x]) @ xs]"
      by (rule Cons.IH) simp
    finally show ?thesis
      using False unfolding length_Cons filter_upt_Suc
      by (simp add: comp_def del: upt_Suc)
  qed
qed

lemma subpaths_relative:
  assumes "s \<noteq> []" and "\<not> starts_with ''/'' s"
  shows "subpaths [] (str_split s CHR ''/'') = slash_prefixes s"
proof -
  from assms obtain x xs where s: "s = x # xs" and x: "x \<noteq> CHR ''/''"
    by (cases s) auto
  have "subpaths [] (str_split s CHR ''/'') = subpaths [] (split_from CHR ''/'' xs [x])"
    using s x by (simp add: str_split_def)
  also have "\<dots> = map (\<lambda>k. [x] @ take k xs) (filter (\<lambda>k. xs ! k = CHR ''/'') [0..<length xs]) @
      [[x] @ xs]"
    using subpaths_split_from [of "[]" "[x]" xs] by simp
  also have "\<dots> = slash_prefixes s"
    unfolding slash_prefixes_def s length_Cons filter_upt_Suc using x
    by (simp add: comp_def del: upt_Suc)
  finally show ?thesis .
qed

subsection \<open>Recorded runs agree with plain ones\<close>

lemma logged_simps [simp]:
  "std_urlGet (logged env) url (w, l) =
     (fst (std_urlGet env url w), (snd (std_urlGet env url w), l @ [UrlGet url]))"
  "sha256_hex (logged env) = sha256_hex env"
  "os_mkdir (logged env) p mode (w, l) =
     (fst (os_mkdir env p mode w), (snd (os_mkdir env p mode w), l @ [Mkdir p mode]))"
  "os_open (logged env) p flags mode (w, l) =
     (fst (os_open env p flags mode w),
      (snd (os_open env p flags mode w), l @ [Open p flags mode]))"
  "os_write (logged env) fd buf off len (w, l) =
     (fst (os_write env fd buf off len w),
      (snd (os_write env fd buf off len w), l @ [Write fd buf off len]))"
  "os_close (logged env) fd (w, l) =
     (fst (os_close env fd w), (snd (os_close env fd w), l @ [Close fd]))"
  "open_flags (logged env) = open_flags env"
  by (simp_all add: logged_def open_flags_def)

lemma mkpath_loop_logged:
  "fst (mkpath_loop (logged env) mode sp parts (w, l)) = fst (mkpath_loop env mode sp parts w) \<and>
   fst (snd (mkpath_loop (logged env) mode sp parts (w, l))) =
     snd (mkpath_loop env mode sp parts w) \<and>
   (\<exists>n. snd (snd (mkpath_loop (logged env) mode sp parts (w, l))) =
      l @ map (\<lambda>p. Mkdir p mode) (take n (subpaths sp parts)))"
proof (induction parts arbitrary: sp w l)
  case Nil
  then show ?case by simp
next
  case (Cons part parts)
  define sp' where "sp' = sp @ (if sp \<noteq> [] then ''/'' else []) @ part"
  obtain out w' where m: "os_mkdir env sp' mode w = (out, w')"
    by (cases "os_mkdir env sp' mode w")
  let ?run = "mkpath_loop (logged env) mode sp (part # parts) (w, l)"
  show ?case
  proof (cases "rethrown out")
    case True
    then obtain msg where out: "out = Threw msg" "\<not> EEXIST_test msg"
      by (auto simp: rethrown_def split: js_outcome.splits)
    with m have "snd (snd ?run) =
        l @ map (\<lambda>p. Mkdir p mode) (take 1 (subpaths sp (part # parts)))"
      by (simp add: sp'_def Let_def)
    moreover from m out
    have "fst ?run = fst (mkpath_loop env mode sp (part # parts) w)"
      "fst (snd ?run) = snd (mkpath_loop env mode sp (part # parts) w)"
      by (simp_all add: sp'_def Let_def)
    ultimately show ?thesis by blast
  next
    case False
    then have eq1: "?run = mkpath_loop (logged env) mode sp' parts (w', l @ [Mkdir sp' mode])"
      and eq2: "mkpath_loop env mode sp (part # parts) w = mkpath_loop env mode sp' parts w'"
      using m by (auto simp: rethrown_def sp'_def Let_def split: js_outcome.splits)
    let ?rest = "mkpath_loop (logged env) mode sp' parts (w', l @ [Mkdir sp' mode])"
    from Cons.IH [of sp' w' "l @ [Mkdir sp' mode]"]
    obtain n where n: "snd (snd ?rest) =
        (l @ [Mkdir sp' mode]) @ map (\<lambda>p. Mkdir p mode) (take n (subpaths sp' parts))"
      and a: "fst ?rest = fst (mkpath_loop env mode sp' parts w')"
      and b: "fst (snd ?rest) = snd (mkpath_loop env mode sp' parts w')"
      by blast
    have "snd (snd ?run) =
        l @ map (\<lambda>p. Mkdir p mode) (take (Suc n) (subpaths sp (part # parts)))"
      unfolding eq1 n by (simp add: sp'_def Let_def)
    with a b eq1 eq2 show ?thesis by metis
  qed
qed

lemma mkpath_logged:
  "fst (mkpath (logged env) filePath mode (w, l)) = fst (mkpath env filePath mode w) \<and>
   fst (snd (mkpath (logged env) filePath mode (w, l))) = snd (mkpath env filePath mode w) \<and>
   (\<exists>ps. snd (snd (mkpath (logged env) filePath mode (w, l))) =
      l @ map (\<lambda>p. Mkdir p mode) ps)"
proof (cases "lastIndexOf filePath CHR ''/'' \<le> 0")
  case True
  then show ?thesis
    unfolding mkpath_def Let_def by (intro conjI exI[of _ "[]"]; simp)
next
  case False
  with mkpath_loop_logged [of env mode "[]"
      "str_split (slice0 filePath (lastIndexOf filePath CHR ''/'')) CHR ''/''" w l]
  show ?thesis unfolding mkpath_def Let_def by auto
qed

lemma mkpath_loop_logged_complete:
  "fst (mkpath_loop env mode sp parts w) = None \<Longrightarrow>
   snd (snd (mkpath_loop (logged env) mode sp parts (w, l))) =
     l @ map (\<lambda>p. Mkdir p mode) (subpaths sp parts)"
proof (induction parts arbitrary: sp w l)
  case Nil
  then show ?case by simp
next
  case (Cons part parts)
  define sp' where "sp' = sp @ (if sp \<noteq> [] then ''/'' else []) @ part"
  obtain out w' where m: "os_mkdir env sp' mode w = (out, w')"
    by (cases "os_mkdir env sp' mode w")
  from Cons.prems m have nr: "\<not> rethrown out"
    by (auto simp: rethrown_def sp'_def Let_def split: js_outcome.splits if_splits)
  with m have eq: "mkpath_loop env mode sp (part # parts) w = mkpath_loop env mode sp' parts w'"
    and eql: "mkpath_loop (logged env) mode sp (part # parts) (w, l) =
        mkpath_loop (logged env) mode sp' parts (w', l @ [Mkdir sp' mode])"
    by (auto simp: rethrown_def sp'_def Let_def split: js_outcome.splits)
  from Cons.prems eq have "fst (mkpath_loop env mode sp' parts w') = None" by simp
  from Cons.IH [OF this, of "l @ [Mkdir sp' mode]"] show ?case
    unfolding eql by (simp add: sp'_def Let_def)
qed

lemma download_logged:
  "fst (download (logged env) url filename checksums (w, l)) =
     fst (download env url filename checksums w)"
  "fst (snd (download (logged env) url filename checksums (w, l))) =
     snd (download env url filename checksums w)"
proof -
  obtain b w1 where u: "std_urlGet env url w = (b, w1)" by (cases "std_urlGet env url w")
  obtain e w2 where mk: "mkpath env filename mkpath_default_mode w1 = (e, w2)"
    by (cases "mkpath env filename mkpath_default_mode w1")
  let ?mk = "mkpath (logged env) filename mkpath_default_mode (w1, l @ [UrlGet url])"
  from mkpath_logged [of env filename mkpath_default_mode w1 "l @ [UrlGet url]"] mk
  obtain l2 where lmk: "?mk = (e, (w2, l2))"
    by (cases ?mk) auto
  obtain fd w3 where op: "os_open env filename (open_flags env) open_mode w2 = (fd, w3)"
    by (cases "os_open env filename (open_flags env) open_mode w2")
  obtain n w4 where wr: "os_write env fd (the b) 0 (length (the b)) w3 = (n, w4)"
    by (cases "os_write env fd (the b) 0 (length (the b)) w3")
  show "fst (download (logged env) url filename checksums (w, l)) =
     fst (download env url filename checksums w)"
    using u mk lmk op wr
    by (cases b; cases e) (simp_all add: download_def Let_def)
  show "fst (snd (download (logged env) url filename checksums (w, l))) =
     snd (download env url filename checksums w)"
    using u mk lmk op wr
    by (cases b; cases e) (simp_all add: download_def Let_def)
qed

lemma filter_is_Open_Mkdir [simp]: "filter is_Open (map (\<lambda>p. Mkdir p mode) ps) = []"
  by (induction ps) (simp_all add: is_Open_def)

subsection \<open>The runs of \<^verbatim>\<open>download\<close> that pass verification\<close>

lemma download_after_fetch:
  assumes "std_urlGet env url w = (Some P, w1)"
    and "\<not> checksum_rejects checksums (sha256_hex env P)"
    and "mkpath env filename mkpath_default_mode w1 = (None, w2)"
    and "os_open env filename (open_flags env) open_mode w2 = (fd, w3)"
    and "0 \<le> fd"
    and "os_write env fd P 0 (length P) w3 = (n, w4)"
  shows "download env url filename checksums w =
           (if n \<noteq> int (length P) then Inl (IncompleteWrite filename n (length P))
            else Inr (filename, n), snd (os_close env fd w4))"
  using assms by (simp add: download_def Let_def)

lemma download_accepted:
  assumes fetch: "std_urlGet env url w = (Some P, w1)"
    and acc: "\<not> checksum_rejects checksums (sha256_hex env P)"
    and io: "write_step_succeeds env filename P w1"
  shows "fst (download env url filename checksums w) = Inr (filename, int (length P))"
    and "file_contract env content \<Longrightarrow>
           content (snd (download env url filename checksums w)) filename = Some P"
proof -
  obtain e w2 where mk: "mkpath env filename mkpath_default_mode w1 = (e, w2)"
    by (cases "mkpath env filename mkpath_default_mode w1")
  obtain fd w3 where op: "os_open env filename (open_flags env) open_mode w2 = (fd, w3)"
    by (cases "os_open env filename (open_flags env) open_mode w2")
  obtain n w4 where wr: "os_write env fd P 0 (length P) w3 = (n, w4)"
    by (cases "os_write env fd P 0 (length P) w3")
  from io mk op wr have ok: "e = None" "0 \<le> fd" "n = int (length P)"
    by (simp_all add: write_step_succeeds_def Let_def)
  from download_after_fetch [OF fetch acc mk [unfolded ok(1)] op ok(2) wr] ok(3)
  have d: "download env url filename checksums w =
      (Inr (filename, int (length P)), snd (os_close env fd w4))"
    by simp
  then show "fst (download env url filename checksums w) = Inr (filename, int (length P))"
    by simp
  assume "file_contract env content"
  then have "0 \<le> fst (os_open env filename (open_flags env) open_mode w2) \<longrightarrow>
        fst (os_write env (fst (os_open env filename (open_flags env) open_mode w2)) P 0 (length P)
               (snd (os_open env filename (open_flags env) open_mode w2))) = int (length P) \<longrightarrow>
        content
          (snd (os_close env (fst (os_open env filename (open_flags env) open_mode w2))
             (snd (os_write env (fst (os_open env filename (open_flags env) open_mode w2)) P 0 (length P)
                (snd (os_open env filename (open_flags env) open_mode w2)))))) filename = Some P"
    unfolding file_contract_def by blast
  with op wr ok have "content (snd (os_close env fd w4)) filename = Some P" by simp
  with d show "content (snd (download env url filename checksums w)) filename = Some P"
    by simp
qed

lemma download_success_run:
  assumes "fst (download env url filename checksums w) = Inr r"
  shows "\<exists>P. fst (std_urlGet env url w) = Some P \<and>
             \<not> checksum_rejects checksums (sha256_hex env P) \<and>
             write_step_succeeds env filename P (snd (std_urlGet env url w))"
proof -
  obtain b w1 where u: "std_urlGet env url w = (b, w1)" by (cases "std_urlGet env url w")
  from assms u obtain P where P: "b = Some P" by (cases b) (simp_all add: download_def)
  from assms u P have acc: "\<not> checksum_rejects checksums (sha256_hex env P)"
    by (auto simp: download_def)
  obtain e w2 where mk: "mkpath env filename mkpath_default_mode w1 = (e, w2)"
    by (cases "mkpath env filename mkpath_default_mode w1")
  from assms u P acc mk have e: "e = None" by (cases e) (simp_all add: download_def)
  obtain fd w3 where op: "os_open env filename (open_flags env) open_mode w2 = (fd, w3)"
    by (cases "os_open env filename (open_flags env) open_mode w2")
  obtain n w4 where wr: "os_write env fd P 0 (length P) w3 = (n, w4)"
    by (cases "os_write env fd P 0 (length P) w3")
  from assms u P acc mk e op wr have "0 \<le> fd \<and> n = int (length P)"
    by (auto simp: download_def Let_def split: if_splits)
  with mk e op wr have "write_step_succeeds env filename P w1"
    by (simp add: write_step_succeeds_def Let_def)
  with u P acc show ?thesis by simp
qed






subsection \<open>Settled directories\<close>

lemma settled_kept:
  assumes c: "mkdir_contract env"
  shows "settled env p mode w \<Longrightarrow> \<forall>t \<in> set (subpaths sp parts). starts_with p t \<Longrightarrow>
         settled env p mode (snd (mkpath_loop env mode sp parts w))"
proof (induction parts arbitrary: sp w)
  case Nil
  then show ?case by simp
next
  case (Cons part parts)
  define sp' where "sp' = sp @ (if sp \<noteq> [] then ''/'' else []) @ part"
  obtain out w' where m: "os_mkdir env sp' mode w = (out, w')"
    by (cases "os_mkdir env sp' mode w")
  from Cons.prems(2) have pre: "starts_with p sp'"
    and rest: "\<forall>t \<in> set (subpaths sp' parts). starts_with p t"
    by (simp_all add: sp'_def Let_def)
  from c pre Cons.prems(1) have "settled env p mode (snd (os_mkdir env sp' mode w))"
    unfolding mkdir_contract_def by blast
  with m have s': "settled env p mode w'" by simp
  show ?case
  proof (cases "rethrown out")
    case True
    with m have "snd (mkpath_loop env mode sp (part # parts) w) = w'"
      by (auto simp: rethrown_def sp'_def Let_def split: js_outcome.splits)
    with s' show ?thesis by simp
  next
    case False
    with m have "mkpath_loop env mode sp (part # parts) w = mkpath_loop env mode sp' parts w'"
      by (auto simp: rethrown_def sp'_def Let_def split: js_outcome.splits)
    with Cons.IH [OF s' rest] show ?thesis by simp
  qed
qed

lemma all_settled_after:
  assumes c: "mkdir_contract env"
  shows "fst (mkpath_loop env mode sp parts w) = None \<Longrightarrow>
         \<forall>t \<in> set (subpaths sp parts).
            settled env t mode (snd (mkpath_loop env mode sp parts w))"
proof (induction parts arbitrary: sp w)
  case Nil
  then show ?case by simp
next
  case (Cons part parts)
  define sp' where "sp' = sp @ (if sp \<noteq> [] then ''/'' else []) @ part"
  obtain out w' where m: "os_mkdir env sp' mode w = (out, w')"
    by (cases "os_mkdir env sp' mode w")
  from Cons.prems m have nr: "\<not> rethrown out"
    by (auto simp: rethrown_def sp'_def Let_def split: js_outcome.splits if_splits)
  with m have eq: "mkpath_loop env mode sp (part # parts) w = mkpath_loop env mode sp' parts w'"
    by (auto simp: rethrown_def sp'_def Let_def split: js_outcome.splits)
  from c nr m have "settled env sp' mode w'"
    unfolding mkdir_contract_def by (metis fst_conv snd_conv)
  from settled_kept [OF c this, of sp' parts] subpaths_extend
  have first: "settled env sp' mode (snd (mkpath_loop env mode sp' parts w'))" by blast
  from Cons.prems eq have "fst (mkpath_loop env mode sp' parts w') = None" by simp
  from Cons.IH [OF this] first show ?case
    unfolding eq by (simp add: sp'_def Let_def)
qed

lemma settled_loop_idle:
  "\<forall>t \<in> set (subpaths sp parts). settled env t mode w \<Longrightarrow>
   mkpath_loop env mode sp parts w = (None, w)"
proof (induction parts arbitrary: sp)
  case Nil
  then show ?case by simp
next
  case (Cons part parts)
  define sp' where "sp' = sp @ (if sp \<noteq> [] then ''/'' else []) @ part"
  from Cons.prems have s: "settled env sp' mode w"
    and rest: "\<forall>t \<in> set (subpaths sp' parts). settled env t mode w"
    by (simp_all add: sp'_def Let_def)
  obtain out where m: "os_mkdir env sp' mode w = (out, w)" and nr: "\<not> rethrown out"
    using s by (cases "os_mkdir env sp' mode w") (auto simp: settled_def)
  then have "mkpath_loop env mode sp (part # parts) w = mkpath_loop env mode sp' parts w"
    by (auto simp: rethrown_def sp'_def Let_def split: js_outcome.splits)
  with Cons.IH [OF rest] show ?case by simp
qed

subsection \<open>The simulated operating system keeps both contracts\<close>

lemma errno_code_pos: "0 < errno_code e"
  by (cases e) simp_all

lemma sim_os_simps [simp]:
  "std_urlGet (sim_os cfg) url w = (map_of (remote cfg) url, w)"
  "sha256_hex (sim_os cfg) = hash cfg"
  "os_mkdir (sim_os cfg) = sim_mkdir cfg"
  "os_open (sim_os cfg) = sim_open cfg"
  "os_write (sim_os cfg) = sim_write cfg"
  "os_close (sim_os cfg) = sim_close cfg"
  "open_flags (sim_os cfg) = 578"
  by (simp_all add: sim_os_def open_flags_def)

lemma sim_file_contract: "file_contract (sim_os cfg) sim_content"
  unfolding file_contract_def
proof (intro allI impI)
  fix p mode buf w
  let ?op = "sim_open cfg p 578 mode w"
  let ?wr = "sim_write cfg (fst ?op) buf 0 (length buf) (snd ?op)"
  assume "0 \<le> fst (os_open (sim_os cfg) p (open_flags (sim_os cfg)) mode w)"
    and "fst (os_write (sim_os cfg) (fst (os_open (sim_os cfg) p (open_flags (sim_os cfg)) mode w))
           buf 0 (length buf) (snd (os_open (sim_os cfg) p (open_flags (sim_os cfg)) mode w))) =
         int (length buf)"
  then have ok: "0 \<le> fst ?op" and full: "fst ?wr = int (length buf)" by simp_all
  have neg: "\<not> 0 \<le> - errno_code e" for e using errno_code_pos [of e] by simp
  from ok have fd: "fst ?op = fresh_handle w"
    and opened: "sim_content (snd ?op) p = Some []"
      "map_of (sim_handles (snd ?op)) (fresh_handle w) = Some (p, 0)"
    using neg
    by (auto simp: sim_open_def sim_content_def split: if_splits option.splits)
  from opened fd full have "take (min (length buf) (write_cap cfg)) buf = buf"
    by (auto simp: sim_write_def Let_def)
  with opened fd
  have "sim_content (snd (sim_close cfg (fst ?op) (snd ?wr))) p = Some buf"
    by (auto simp: sim_write_def sim_close_def sim_content_def Let_def split: option.splits)
  then show "sim_content
          (snd (os_close (sim_os cfg) (fst (os_open (sim_os cfg) p (open_flags (sim_os cfg)) mode w))
             (snd (os_write (sim_os cfg) (fst (os_open (sim_os cfg) p (open_flags (sim_os cfg)) mode w)) buf 0 (length buf)
                (snd (os_open (sim_os cfg) p (open_flags (sim_os cfg)) mode w)))))) p = Some buf"
    by simp
qed

lemma sim_mkdir_grows: "w\<lparr>sim_dirs := sim_dirs w @ [p]\<rparr> \<noteq> w"
proof
  assume "w\<lparr>sim_dirs := sim_dirs w @ [p]\<rparr> = w"
  then have "sim_dirs (w\<lparr>sim_dirs := sim_dirs w @ [p]\<rparr>) = sim_dirs w" by simp
  then show False by simp
qed

lemma report_EEXIST_kept [simp]: "\<not> rethrown (report cfg EEXIST)"
  by (simp add: rethrown_def report_def EEXIST_test_def)

lemma sim_mkdir_again:
  assumes "\<not> rethrown (fst (sim_mkdir cfg p mode w))"
  shows "settled (sim_os cfg) p mode (snd (sim_mkdir cfg p mode w))"
proof (cases "snd (sim_mkdir cfg p mode w) = w")
  case True
  with assms show ?thesis by (simp add: settled_def)
next
  case False
  then have w': "snd (sim_mkdir cfg p mode w) = w\<lparr>sim_dirs := sim_dirs w @ [p]\<rparr>" and "p \<noteq> []"
    by (auto simp: sim_mkdir_def split: if_splits option.splits)
  then show ?thesis by (simp add: settled_def sim_mkdir_def)
qed

lemma sim_mkdir_extension:
  assumes pre: "starts_with p q" and s: "settled (sim_os cfg) p mode w"
  shows "settled (sim_os cfg) p mode (snd (sim_mkdir cfg q mode w))"
proof (cases "snd (sim_mkdir cfg q mode w) = w")
  case True
  with s show ?thesis by simp
next
  case False
  then have w': "snd (sim_mkdir cfg q mode w) = w\<lparr>sim_dirs := sim_dirs w @ [q]\<rparr>"
    by (auto simp: sim_mkdir_def split: if_splits option.splits)
  from pre have len: "length p \<le> length q" by (auto simp: starts_with_iff)
  let ?w' = "w\<lparr>sim_dirs := sim_dirs w @ [q]\<rparr>"
  have content: "sim_content ?w' = sim_content w" by (simp add: sim_content_def fun_eq_iff)
  show ?thesis
  proof (cases "p = [] \<or> p \<in> set (sim_dirs w) \<or> sim_content w p \<noteq> None \<or> p = q")
    case True
    then show ?thesis unfolding w' using s
      by (auto simp: settled_def sim_mkdir_def content)
  next
    case False
    with s obtain e where e: "parent_error w p = Some e" and nr: "\<not> rethrown (report cfg e)"
      by (cases "parent_error w p") (auto simp: settled_def sim_mkdir_def sim_mkdir_grows)
    from e have idx: "0 < lastIndexOf p CHR ''/''"
      by (auto simp: parent_error_def Let_def split: if_splits)
    from length_parent [OF idx] len have "slice0 p (lastIndexOf p CHR ''/'') \<noteq> q" by auto
    with e have "parent_error ?w' p = Some e"
      by (auto simp: parent_error_def Let_def content split: if_splits)
    with False nr show ?thesis unfolding w'
      by (simp add: settled_def sim_mkdir_def content)
  qed
qed

lemma sim_mkdir_contract: "mkdir_contract (sim_os cfg)"
  unfolding mkdir_contract_def using sim_mkdir_again sim_mkdir_extension by simp

subsection \<open>The scenario of the design document\<close>




section \<open>The claims\<close>

subsection \<open>What a successful download leaves behind\<close>

text \<open>
  Claim C1. Let the operating system keep the file contract. Whenever \<^verbatim>\<open>download\<close>
  returns (rather than exiting or throwing), the fetch had yielded a payload \<open>P\<close>, the
  file at the destination exists, its content has the length of \<open>P\<close>, and, when a list
  of digests was given, the digest of that content is in the list.
\<close>
theorem success_leaves_verified_file:
  assumes "file_contract env content"
    and "download env url filename checksums w = (Inr r, w')"
  shows "\<exists>P c. fst (std_urlGet env url w) = Some P \<and>
           content w' filename = Some c \<and> length c = length P \<and>
           (\<forall>S. checksums = Some S \<longrightarrow> sha256_hex env c \<in> set S)"
proof -
  from assms(2) have "fst (download env url filename checksums w) = Inr r" by simp
  from download_success_run [OF this]
  obtain P where P: "fst (std_urlGet env url w) = Some P"
    and acc: "\<not> checksum_rejects checksums (sha256_hex env P)"
    and io: "write_step_succeeds env filename P (snd (std_urlGet env url w))"
    by blast
  from P have fetch: "std_urlGet env url w = (Some P, snd (std_urlGet env url w))"
    by (simp add: prod_eq_iff)
  from download_accepted(2) [OF fetch acc io assms(1)] assms(2)
  have "content w' filename = Some P" by simp
  moreover from acc have "\<forall>S. checksums = Some S \<longrightarrow> sha256_hex env P \<in> set S"
    by (auto simp: checksum_rejects_def)
  ultimately show ?thesis using P by blast
qed

theorem success_leaves_verified_file_witness:
  "download (sim_os demo_config) ''https://example/a.bin'' ''out/dir/a.bin''
     (Some [demo_digest]) empty_world =
     (Inr (''out/dir/a.bin'', 4),
      \<lparr>sim_dirs = [''out'', ''out/dir''], sim_files = [(''out/dir/a.bin'', demo_payload)],
       sim_handles = []\<rparr>) \<and>
   (\<exists>P c. fst (std_urlGet (sim_os demo_config) ''https://example/a.bin'' empty_world) = Some P \<and>
      sim_content \<lparr>sim_dirs = [''out'', ''out/dir''],
          sim_files = [(''out/dir/a.bin'', demo_payload)], sim_handles = []\<rparr>
        ''out/dir/a.bin'' = Some c \<and>
      length c = length P \<and> sha256_hex (sim_os demo_config) c \<in> set [demo_digest])"
proof -
  let ?w' = "\<lparr>sim_dirs = [''out'', ''out/dir''],
          sim_files = [(''out/dir/a.bin'', demo_payload)], sim_handles = []\<rparr>"
  have run: "download (sim_os demo_config) ''https://example/a.bin'' ''out/dir/a.bin''
     (Some [demo_digest]) empty_world = (Inr (''out/dir/a.bin'', 4), ?w')"
    by (simp add: download_def Let_def sim_defs)
  from success_leaves_verified_file [OF sim_file_contract run] run
  show ?thesis by simp
qed

subsection \<open>Round trip\<close>




subsection \<open>Downloads without verification\<close>




subsection \<open>Rejection of a payload whose digest is not listed\<close>

text \<open>
  Claim C4. Whenever the fetch yields a payload \<open>P\<close> and a list \<open>S\<close> of digests is
  given that does not contain the digest of \<open>P\<close>, \<^verbatim>\<open>download\<close> ends in failure with
  the checksum-mismatch message, which carries the file name, the list \<open>S\<close> and the
  computed digest. This holds for every \<open>S\<close>, the empty list included.
\<close>
theorem checksum_rejection:
  assumes "fst (std_urlGet env url w) = Some P"
    and "sha256_hex env P \<notin> set S"
  shows "fst (download env url filename (Some S) w) =
           Inl (ChecksumMismatch filename S (sha256_hex env P))"
proof -
  obtain w1 where "std_urlGet env url w = (Some P, w1)"
    using assms(1) by (cases "std_urlGet env url w") simp
  with assms(2) show ?thesis
    by (simp add: download_def checksum_rejects_def)
qed

theorem checksum_rejection_witness:
  "fst (std_urlGet (sim_os demo_config) ''https://example/a.bin'' empty_world) =
     Some demo_payload \<and>
   sha256_hex (sim_os demo_config) demo_payload \<notin> set [''deadbeef''] \<and>
   fst (download (sim_os demo_config) ''https://example/a.bin'' ''out/dir/a.bin''
          (Some [''deadbeef'']) empty_world) =
     Inl (ChecksumMismatch ''out/dir/a.bin'' [''deadbeef''] demo_digest)"
proof -
  have f: "fst (std_urlGet (sim_os demo_config) ''https://example/a.bin'' empty_world) =
      Some demo_payload"
    by (simp add: sim_os_def demo_config_def)
  have d: "sha256_hex (sim_os demo_config) demo_payload \<notin> set [''deadbeef'']"
    by (simp add: sim_os_def demo_config_def demo_hash_def demo_digest_def)
  have h: "sha256_hex (sim_os demo_config) demo_payload = demo_digest"
    by (simp add: sim_os_def demo_config_def demo_hash_def)
  from checksum_rejection [OF f d, of "''out/dir/a.bin''"] f d h show ?thesis by simp
qed

subsection \<open>The directories \<^verbatim>\<open>mkpath\<close> asks for\<close>

text \<open>
  For a path that does not begin with a separator, the calls of \<^verbatim>\<open>os.mkdir\<close> made by a
  run of \<^verbatim>\<open>mkpath\<close> that does not throw are exactly the increasing prefixes of the
  directory portion, in order (\<open>mkpath_relative_calls\<close>).
\<close>

lemma mkpath_relative_calls:
  assumes idx: "0 < lastIndexOf filePath CHR ''/''"
    and rel: "\<not> starts_with ''/'' filePath"
    and ok: "fst (mkpath env filePath mode w) = None"
  shows "snd (snd (mkpath (logged env) filePath mode (w, []))) =
           map (\<lambda>p. Mkdir p mode)
             (slash_prefixes (slice0 filePath (lastIndexOf filePath CHR ''/'')))"
proof -
  define dirPath where "dirPath = slice0 filePath (lastIndexOf filePath CHR ''/'')"
  from idx obtain x xs where f: "filePath = x # xs"
    by (cases filePath) (simp_all add: lastIndexOf_def)
  from idx obtain n where n: "nat (lastIndexOf filePath CHR ''/'') = Suc n"
    by (cases "nat (lastIndexOf filePath CHR ''/'')") simp_all
  have "dirPath = take (Suc n) filePath"
    unfolding dirPath_def slice0_def n ..
  then have dp: "dirPath = x # take n xs"
    by (simp add: f)
  from rel f have "x \<noteq> CHR ''/''" by simp
  with dp have d: "dirPath \<noteq> []" "\<not> starts_with ''/'' dirPath" by simp_all
  from idx ok have "fst (mkpath_loop env mode [] (str_split dirPath CHR ''/'') w) = None"
    by (simp add: mkpath_def dirPath_def Let_def)
  from mkpath_loop_logged_complete [OF this, of "[]"] idx
  have "snd (snd (mkpath (logged env) filePath mode (w, []))) =
      map (\<lambda>p. Mkdir p mode) (subpaths [] (str_split dirPath CHR ''/''))"
    by (simp add: mkpath_def dirPath_def Let_def)
  with subpaths_relative [OF d] show ?thesis by (simp add: dirPath_def)
qed

text \<open>
  Claim C5 fails for absolute paths. For \<^verbatim>\<open>/x/y/f\<close> the segments are the empty string,
  \<^verbatim>\<open>x\<close> and \<^verbatim>\<open>y\<close>. After the first segment \<^verbatim>\<open>subpath\<close> is still empty, so the
  separator is left out before \<^verbatim>\<open>x\<close>: the calls of \<^verbatim>\<open>os.mkdir\<close> are on the empty path,
  on \<^verbatim>\<open>x\<close> and on \<^verbatim>\<open>x/y\<close>, and the directories are created relative to the working
  directory, not at the increasing prefixes \<^verbatim>\<open>/x\<close> and \<^verbatim>\<open>/x/y\<close> of the directory
  portion.
\<close>
theorem absolute_path_created_relative:
  "mkpath (sim_os demo_config) ''/x/y/f'' 493 empty_world =
     (None, \<lparr>sim_dirs = [''x'', ''x/y''], sim_files = [], sim_handles = []\<rparr>) \<and>
   snd (snd (mkpath (logged (sim_os demo_config)) ''/x/y/f'' 493 (empty_world, []))) =
     [Mkdir '''' 493, Mkdir ''x'' 493, Mkdir ''x/y'' 493] \<and>
   slash_prefixes ''/x/y'' = ['''', ''/x'', ''/x/y'']"
proof -
  have "slash_prefixes ''/x/y'' = ['''', ''/x'', ''/x/y'']"
    by (simp add: slash_prefixes_def upt_rec)
  then show ?thesis
    by (simp add: mkpath_def lastIndexOf_def slice0_def str_split_def Let_def sim_mkdir_def
        report_def parent_error_def sim_content_def demo_config_def empty_world_def)
qed

subsection \<open>Detection of a short write\<close>

text \<open>
  Claim C6. On a run that comes to the call of \<^verbatim>\<open>os.write\<close> (the fetch yielded a
  payload \<open>P\<close>, the digest was not rejected, \<^verbatim>\<open>mkpath\<close> did not throw, \<^verbatim>\<open>os.open\<close>
  gave a handle), if that call reports a number \<open>n\<close> below the length of \<open>P\<close>, then
  \<^verbatim>\<open>download\<close> ends in failure with the incomplete-write message, which carries the
  file name, the number \<open>n\<close> written and the length of \<open>P\<close> expected.
\<close>
theorem short_write_detected:
  assumes "std_urlGet env url w = (Some P, w1)"
    and "\<not> checksum_rejects checksums (sha256_hex env P)"
    and "mkpath env filename mkpath_default_mode w1 = (None, w2)"
    and "os_open env filename (open_flags env) open_mode w2 = (fd, w3)"
    and "0 \<le> fd"
    and "os_write env fd P 0 (length P) w3 = (n, w4)"
    and "n < int (length P)"
  shows "fst (download env url filename checksums w) =
           Inl (IncompleteWrite filename n (length P))"
  using assms by (simp add: download_def Let_def)

theorem short_write_detected_witness:
  "fst (download (sim_os (demo_config\<lparr>write_cap := 3\<rparr>)) ''https://example/a.bin''
          ''out/dir/a.bin'' None empty_world) =
     Inl (IncompleteWrite ''out/dir/a.bin'' 3 (length demo_payload)) \<and>
   (3::int) < int (length demo_payload)"
proof -
  let ?env = "sim_os (demo_config\<lparr>write_cap := 3\<rparr>)"
  let ?w2 = "\<lparr>sim_dirs = [''out'', ''out/dir''], sim_files = [], sim_handles = []\<rparr>"
  let ?w3 = "\<lparr>sim_dirs = [''out'', ''out/dir''], sim_files = [(''out/dir/a.bin'', [])],
              sim_handles = [(3, ''out/dir/a.bin'', 0)]\<rparr>"
  have 1: "std_urlGet ?env ''https://example/a.bin'' empty_world =
      (Some demo_payload, empty_world)"
    by (simp add: sim_os_def demo_config_def)
  have 2: "\<not> checksum_rejects None (sha256_hex ?env demo_payload)"
    by (simp add: checksum_rejects_def)
  have 3: "mkpath ?env ''out/dir/a.bin'' mkpath_default_mode empty_world = (None, ?w2)"
    by (simp add: sim_defs)
  have 4: "os_open ?env ''out/dir/a.bin'' (open_flags ?env) open_mode ?w2 = (3, ?w3)"
    by (simp add: sim_defs)
  have 5: "(0::int) \<le> 3" by simp
  have 6: "os_write ?env 3 demo_payload 0 (length demo_payload) ?w3 =
             (3, snd (os_write ?env 3 demo_payload 0 (length demo_payload) ?w3))"
    by (simp add: sim_defs)
  have 7: "(3::int) < int (length demo_payload)" by (simp add: demo_payload_def)
  from short_write_detected [OF 1 2 3 4 5 6 7] 7 show ?thesis by simp
qed

subsection \<open>A rejected payload leaves the file system alone\<close>

text \<open>
  Claim C7. When \<^verbatim>\<open>download\<close> ends with the checksum-mismatch failure, the only call
  it has made is \<^verbatim>\<open>std.urlGet\<close>: no \<^verbatim>\<open>os.mkdir\<close>, \<^verbatim>\<open>os.open\<close>, \<^verbatim>\<open>os.write\<close> or
  \<^verbatim>\<open>os.close\<close> has happened, and the world is as the fetch left it. So no directory
  has been created and the destination has not been opened, truncated or written.
\<close>
theorem checksum_failure_touches_nothing:
  assumes "fst (download (logged env) url filename checksums (w, [])) =
             Inl (ChecksumMismatch f S d)"
  shows "snd (download (logged env) url filename checksums (w, [])) =
           (snd (std_urlGet env url w), [UrlGet url])"
proof -
  obtain r w1 where u: "std_urlGet env url w = (r, w1)" by (cases "std_urlGet env url w")
  show ?thesis
  proof (cases r)
    case None
    with u assms show ?thesis by (simp add: download_def)
  next
    case (Some P)
    show ?thesis
    proof (cases "checksum_rejects checksums (sha256_hex env P)")
      case True
      with u Some show ?thesis by (simp add: download_def)
    next
      case False
      with u Some assms show ?thesis
        by (simp add: download_def Let_def split: prod.splits option.splits if_splits)
    qed
  qed
qed

theorem checksum_failure_touches_nothing_witness:
  "fst (download (logged (sim_os demo_config)) ''https://example/a.bin'' ''out/dir/a.bin''
          (Some [''deadbeef'']) (empty_world, [])) =
     Inl (ChecksumMismatch ''out/dir/a.bin'' [''deadbeef''] demo_digest) \<and>
   snd (download (logged (sim_os demo_config)) ''https://example/a.bin'' ''out/dir/a.bin''
          (Some [''deadbeef'']) (empty_world, [])) =
     (empty_world, [UrlGet ''https://example/a.bin''])"
proof -
  have r: "fst (download (logged (sim_os demo_config)) ''https://example/a.bin'' ''out/dir/a.bin''
          (Some [''deadbeef'']) (empty_world, [])) =
     Inl (ChecksumMismatch ''out/dir/a.bin'' [''deadbeef''] demo_digest)"
    by (simp add: download_def checksum_rejects_def sim_os_def demo_config_def demo_hash_def
        demo_digest_def)
  have u: "snd (std_urlGet (sim_os demo_config) ''https://example/a.bin'' empty_world) = empty_world"
    by (simp add: sim_os_def)
  from checksum_failure_touches_nothing [OF r] r u show ?thesis by simp
qed

subsection \<open>Failures of directory creation\<close>

text \<open>
  Claim C8 holds for failures that reach the script as exceptions, and fails for
  failures that \<^verbatim>\<open>os.mkdir\<close> reports by its return value, which is how QuickJS reports
  them (\<open>0\<close> or \<open>-errno\<close>) and how the script itself reads the result of \<^verbatim>\<open>os.open\<close>.
  In a world where \<^verbatim>\<open>a\<close> is a regular file, creating \<^verbatim>\<open>a/b\<close> fails with \<open>ENOTDIR\<close>,
  reported as \<open>-20\<close>; \<^verbatim>\<open>mkpath\<close> drops the number and returns normally. Were the same
  failure thrown, \<^verbatim>\<open>mkpath\<close> would rethrow it.
\<close>
theorem mkdir_failure_not_surfaced:
  "os_mkdir (sim_os demo_config) ''a/b'' 493 file_a_world = (Returned (- 20), file_a_world) \<and>
   mkpath (sim_os demo_config) ''a/b/f'' 493 file_a_world = (None, file_a_world) \<and>
   mkpath (sim_os (demo_config\<lparr>throwing := True\<rparr>)) ''a/b/f'' 493 file_a_world =
     (Some ''ENOTDIR: not a directory'', file_a_world)"
  by (simp add: sim_defs file_a_world_def)

subsection \<open>Calling \<^verbatim>\<open>mkpath\<close> twice\<close>

text \<open>
  Claim C9. Let directory creation keep the contract above. When a call of \<^verbatim>\<open>mkpath\<close>
  has returned without throwing, a second call with the same path and mode, started
  in the world the first one left, returns without throwing as well and leaves that
  world exactly as it is.
\<close>
theorem mkpath_idempotent:
  assumes "mkdir_contract env"
    and "mkpath env filePath mode w = (None, w1)"
  shows "mkpath env filePath mode w1 = (None, w1)"
proof (cases "lastIndexOf filePath CHR ''/'' \<le> 0")
  case True
  with assms(2) show ?thesis by (simp add: mkpath_def)
next
  case False
  define parts where "parts = str_split (slice0 filePath (lastIndexOf filePath CHR ''/'')) CHR ''/''"
  from False assms(2) have run: "mkpath_loop env mode [] parts w = (None, w1)"
    by (simp add: mkpath_def parts_def Let_def)
  then have "fst (mkpath_loop env mode [] parts w) = None" by simp
  from all_settled_after [OF assms(1) this] run
  have "\<forall>t \<in> set (subpaths [] parts). settled env t mode w1" by simp
  from settled_loop_idle [OF this] False show ?thesis
    by (simp add: mkpath_def parts_def Let_def)
qed

theorem mkpath_idempotent_witness:
  "mkpath (sim_os (demo_config\<lparr>throwing := True\<rparr>)) ''out/dir/a.bin'' 493 empty_world =
     (None, \<lparr>sim_dirs = [''out'', ''out/dir''], sim_files = [], sim_handles = []\<rparr>) \<and>
   os_mkdir (sim_os (demo_config\<lparr>throwing := True\<rparr>)) ''out'' 493
     \<lparr>sim_dirs = [''out'', ''out/dir''], sim_files = [], sim_handles = []\<rparr> =
     (Threw ''EEXIST: file exists'',
      \<lparr>sim_dirs = [''out'', ''out/dir''], sim_files = [], sim_handles = []\<rparr>) \<and>
   mkpath (sim_os (demo_config\<lparr>throwing := True\<rparr>)) ''out/dir/a.bin'' 493
     \<lparr>sim_dirs = [''out'', ''out/dir''], sim_files = [], sim_handles = []\<rparr> =
     (None, \<lparr>sim_dirs = [''out'', ''out/dir''], sim_files = [], sim_handles = []\<rparr>)"
proof -
  let ?env = "sim_os (demo_config\<lparr>throwing := True\<rparr>)"
  let ?w1 = "\<lparr>sim_dirs = [''out'', ''out/dir''], sim_files = [], sim_handles = []\<rparr>"
  have first: "mkpath ?env ''out/dir/a.bin'' 493 empty_world = (None, ?w1)"
    by (simp add: sim_defs)
  have again: "os_mkdir ?env ''out'' 493 ?w1 = (Threw ''EEXIST: file exists'', ?w1)"
    by (simp add: sim_defs)
  from mkpath_idempotent [OF sim_mkdir_contract first] first again show ?thesis by simp
qed

subsection \<open>The mode of the destination file\<close>

lemma no_umask_gives_755: "(open_mode AND m) AND 511 \<noteq> (493::nat)"
proof
  have b: "bit (493::nat) 7" "\<not> bit (1877::nat) 7"
    by (simp_all add: bit_iff_odd)
  assume "(open_mode AND m) AND 511 = (493::nat)"
  then have "bit ((open_mode AND m) AND 511) 7 = bit (493::nat) 7" by (rule arg_cong)
  then have "bit (1877::nat) 7" unfolding bit_and_iff open_mode_def using b(1) by simp
  with b(2) show False by simp
qed

text \<open>
  Claim C10. Every run of \<^verbatim>\<open>download\<close> that comes to step 4 and past \<^verbatim>\<open>mkpath\<close> calls
  \<^verbatim>\<open>os.open\<close> exactly once, on the destination, with the mode \<^verbatim>\<open>0x755\<close>. That number
  is 1877, in octal 3525; it differs from the mode 493 (octal 755) that \<^verbatim>\<open>mkpath\<close>
  uses for directories, and whatever mask the system applies to it, the permission
  bits that result are never those of octal 755.
\<close>
theorem open_uses_hex_mode:
  assumes "reached_open (fst (download (logged env) url filename checksums (w, [])))"
  shows "filter is_Open (snd (snd (download (logged env) url filename checksums (w, [])))) =
           [Open filename (open_flags env) open_mode] \<and>
         open_mode = 1877 \<and> open_mode = 3 * 8 ^ 3 + 5 * 8 ^ 2 + 2 * 8 + 5 \<and>
         mkpath_default_mode = 493 \<and> open_mode \<noteq> mkpath_default_mode \<and>
         (\<forall>m. (open_mode AND m) AND 511 \<noteq> 493)"
proof -
  obtain r w1 where u: "std_urlGet env url w = (r, w1)" by (cases "std_urlGet env url w")
  from assms u obtain P where P: "r = Some P"
    by (cases r) (simp_all add: download_def)
  from assms u P have acc: "\<not> checksum_rejects checksums (sha256_hex env P)"
    by (auto simp: download_def)
  let ?mk = "mkpath (logged env) filename mkpath_default_mode (w1, [UrlGet url])"
  from mkpath_logged [of env filename mkpath_default_mode w1 "[UrlGet url]"]
  obtain ps where ps: "snd (snd ?mk) = [UrlGet url] @ map (\<lambda>p. Mkdir p mkpath_default_mode) ps"
    by blast
  obtain e w2 l2 where mk: "?mk = (e, (w2, l2))" by (cases ?mk) auto
  with ps have l2: "filter is_Open l2 = []" by (simp add: is_Open_def)
  from assms u P acc mk have e: "e = None"
    by (cases e) (simp_all add: download_def)
  have "filter is_Open (snd (snd (download (logged env) url filename checksums (w, [])))) =
           [Open filename (open_flags env) open_mode]"
    using u P acc mk e l2
    by (simp add: download_def Let_def is_Open_def split: prod.splits)
  moreover have "open_mode = 1877" "open_mode = 3 * 8 ^ 3 + 5 * 8 ^ 2 + 2 * 8 + 5"
    "mkpath_default_mode = 493" "open_mode \<noteq> mkpath_default_mode"
    by (simp_all add: open_mode_def mkpath_default_mode_def)
  ultimately show ?thesis using no_umask_gives_755 by blast
qed

theorem open_uses_hex_mode_witness:
  "reached_open (fst (download (logged (sim_os demo_config)) ''https://example/a.bin''
      ''out/dir/a.bin'' None (empty_world, []))) \<and>
   filter is_Open (snd (snd (download (logged (sim_os demo_config)) ''https://example/a.bin''
      ''out/dir/a.bin'' None (empty_world, [])))) = [Open ''out/dir/a.bin'' 578 1877]"
proof -
  have "fst (download (sim_os demo_config) ''https://example/a.bin''
      ''out/dir/a.bin'' None empty_world) = Inr (''out/dir/a.bin'', 4)"
    by (simp add: download_def Let_def sim_defs)
  then have "reached_open (fst (download (logged (sim_os demo_config)) ''https://example/a.bin''
      ''out/dir/a.bin'' None (empty_world, [])))" by (simp add: download_logged)
  from open_uses_hex_mode [OF this] this show ?thesis by simp
qed

end
